theory Spec2Isabelle
  imports Complex_Main
begin

section \<open>The pagination control of \<^verbatim>\<open>src/components/Pagination/Pagination.jsx\<close>\<close>

text \<open>
  The component computes, from the current page, the number of pages and the number of
  neighbouring pages, the row of buttons it renders (page numbers and the two markers
  \<^verbatim>\<open>'LEFT'\<close> and \<^verbatim>\<open>'RIGHT'\<close>), it holds the current page as its only state, and it
  tells its caller about every navigation through the callback \<^verbatim>\<open>onPageChanged\<close>.

  JavaScript numbers are modelled as \<^typ>\<open>int\<close>: the model covers integer props, with
  \<^verbatim>\<open>pageLimit\<close> different from zero (a zero page limit makes \<^verbatim>\<open>totalPages\<close> infinite
  or \<^verbatim>\<open>NaN\<close>, which no integer stands for).
\<close>

subsection \<open>Data\<close>

text \<open>
  An element of the array \<^verbatim>\<open>pages\<close>: a page number, or one of the string constants
  \<^verbatim>\<open>LEFT_PAGE = 'LEFT'\<close> and \<^verbatim>\<open>RIGHT_PAGE = 'RIGHT'\<close>.
\<close>

datatype token = Page int | LEFT_PAGE | RIGHT_PAGE

text \<open>The object passed to \<^verbatim>\<open>onPageChanged\<close> (lines 101 to 106).\<close>

record info =
  info_currentPage :: int
  info_totalPages :: int
  info_pageLimit :: int
  info_totalRecords :: int

text \<open>
  The props of the component. The callback acts on the caller's world \<^typ>\<open>'w\<close>;
  \<^term>\<open>None\<close> stands for a callback that is \<^verbatim>\<open>undefined\<close> or \<^verbatim>\<open>null\<close>, which the
  test \<^verbatim>\<open>if (onPageChanged)\<close> of line 100 takes as false.
\<close>

record 'w props =
  onPageChanged :: "(info \<Rightarrow> 'w \<Rightarrow> 'w) option"
  totalRecords :: int
  pageLimit :: int
  props_pageNeighbors :: int

text \<open>The state of the component: \<^verbatim>\<open>const [currentPage, setCurrentPage] = useState(1)\<close>.\<close>

record state =
  currentPage :: int

definition initial_state :: state where
  "initial_state = \<lparr>currentPage = 1\<rparr>"

subsection \<open>The memoised values\<close>

text \<open>Line 34: \<^verbatim>\<open>Math.max(0, Math.min(props.pageNeighbors, 2))\<close>.\<close>

definition pageNeighbors :: "'w props \<Rightarrow> int" where
  "pageNeighbors p = max 0 (min (props_pageNeighbors p) 2)"

text \<open>
  Line 37: \<^verbatim>\<open>Math.ceil(totalRecords / pageLimit)\<close>, the ceiling of the quotient, written
  with the floor division of \<^typ>\<open>int\<close>.
\<close>

definition totalPages :: "'w props \<Rightarrow> int" where
  "totalPages p = - ((- totalRecords p) div pageLimit p)"

text \<open>
  Modelled from the spec: \<^verbatim>\<open>range\<close> of \<^verbatim>\<open>utils/common\<close>, which the component imports
  and which is not among the sources. The specification uses it for the pages
  \<^verbatim>\<open>[startPage - spillOffset, startPage - 1]\<close>, for \<^verbatim>\<open>Page(1) \<dots> Page(totalPages)\<close> and
  for the empty sequence at \<^verbatim>\<open>totalPages = 0\<close>: the integers from the first argument to
  the second, both included, in increasing order, and none when the first exceeds the
  second.
\<close>

definition range_int :: "int \<Rightarrow> int \<Rightarrow> int list" where
  "range_int from to = [from..to]"

text \<open>
  Lines 55 to 95, the body of the memo \<^verbatim>\<open>pages\<close>, as a function of its three
  dependencies: \<open>cur\<close> is \<^verbatim>\<open>currentPage\<close>, \<open>tot\<close> is \<^verbatim>\<open>totalPages\<close> and \<open>nbr\<close> is
  \<^verbatim>\<open>pageNeighbors\<close>. When neither side spills the source leaves \<^verbatim>\<open>pages\<close> as it is.
\<close>

definition pages :: "int \<Rightarrow> int \<Rightarrow> int \<Rightarrow> token list" where
  "pages cur tot nbr =
    (let totalNumbers = nbr * 2 + 3;
         totalBlocks = totalNumbers + 2
     in if tot > totalBlocks then
          (let startPage = max 2 (cur - nbr);
               endPage = min (tot - 1) (cur + nbr);
               pages0 = map Page (range_int startPage endPage);
               hasLeftSpill = (startPage > 2);
               hasRightSpill = (tot - endPage > 1);
               spillOffset = totalNumbers - (int (length pages0) + 1);
               pages1 =
                 (if hasLeftSpill \<and> \<not> hasRightSpill then
                    (let extraPages = map Page (range_int (startPage - spillOffset) (startPage - 1))
                     in [LEFT_PAGE] @ extraPages @ pages0)
                  else if \<not> hasLeftSpill \<and> hasRightSpill then
                    (let extraPages = map Page (range_int (endPage + 1) (endPage + spillOffset))
                     in pages0 @ extraPages @ [RIGHT_PAGE])
                  else if hasLeftSpill \<and> hasRightSpill then
                    [LEFT_PAGE] @ pages0 @ [RIGHT_PAGE]
                  else pages0)
           in [Page 1] @ pages1 @ [Page tot])
        else map Page (range_int 1 tot))"

text \<open>The row of buttons of one render: \<^verbatim>\<open>pages.map(...)\<close> of line 114.\<close>

definition rendered :: "'w props \<Rightarrow> state \<Rightarrow> token list" where
  "rendered p st = pages (currentPage st) (totalPages p) (pageNeighbors p)"

subsection \<open>The handlers\<close>

text \<open>
  Lines 101 to 106: the object handed to the callback. Its \<^verbatim>\<open>currentPage\<close> is the
  variable of the render in which the handler was created, which \<^verbatim>\<open>setCurrentPage\<close>
  does not change.
\<close>

definition payload :: "'w props \<Rightarrow> state \<Rightarrow> info" where
  "payload p st =
    \<lparr>info_currentPage = currentPage st,
     info_totalPages = totalPages p,
     info_pageLimit = pageLimit p,
     info_totalRecords = totalRecords p\<rparr>"

text \<open>
  Lines 97 to 107. \<^verbatim>\<open>setCurrentPage\<close> stores the state of the next render, then the
  callback runs if there is one. The result is the next state and the caller's world
  after the callback.
\<close>

definition handleGoToPage :: "'w props \<Rightarrow> state \<Rightarrow> int \<Rightarrow> 'w \<Rightarrow> state \<times> 'w" where
  "handleGoToPage p st page w =
    (let st' = st\<lparr>currentPage := max 0 (min page (totalPages p))\<rparr>;
         w' = (case onPageChanged p of
                 None \<Rightarrow> w
               | Some callback \<Rightarrow> callback (payload p st) w)
     in (st', w'))"

text \<open>Lines 109 and 110.\<close>

definition handleMoveLeft :: "'w props \<Rightarrow> state \<Rightarrow> 'w \<Rightarrow> state \<times> 'w" where
  "handleMoveLeft p st w = handleGoToPage p st (currentPage st - 1) w"

definition handleMoveRight :: "'w props \<Rightarrow> state \<Rightarrow> 'w \<Rightarrow> state \<times> 'w" where
  "handleMoveRight p st w = handleGoToPage p st (currentPage st + 1) w"

text \<open>Lines 117 to 121: the click handler of the button rendered for one element.\<close>

fun handleClick :: "'w props \<Rightarrow> state \<Rightarrow> token \<Rightarrow> 'w \<Rightarrow> state \<times> 'w" where
  "handleClick p st LEFT_PAGE w = handleMoveLeft p st w"
| "handleClick p st RIGHT_PAGE w = handleMoveRight p st w"
| "handleClick p st (Page n) w = handleGoToPage p st n w"

text \<open>
  A caller for the examples: its world is the list of the objects it has been told, the
  newest first; 100 records, 10 to a page, one neighbour.
\<close>

definition example_props :: "(info list) props" where
  "example_props =
    \<lparr>onPageChanged = Some (#), totalRecords = 100, pageLimit = 10, props_pageNeighbors = 1\<rparr>"

definition example_silent :: "(info list) props" where
  "example_silent =
    \<lparr>onPageChanged = None, totalRecords = 100, pageLimit = 10, props_pageNeighbors = 1\<rparr>"

subsection \<open>Properties a token row may have\<close>

fun is_ellipsis :: "token \<Rightarrow> bool" where
  "is_ellipsis (Page n) = False"
| "is_ellipsis LEFT_PAGE = True"
| "is_ellipsis RIGHT_PAGE = True"

text \<open>Two ellipsis tokens stand side by side somewhere in the row.\<close>

fun adjacent_ellipses :: "token list \<Rightarrow> bool" where
  "adjacent_ellipses (a # b # ts) = ((is_ellipsis a \<and> is_ellipsis b) \<or> adjacent_ellipses (b # ts))"
| "adjacent_ellipses ts = False"

text \<open>The first page number of a row, if it has one.\<close>

fun first_page :: "token list \<Rightarrow> int option" where
  "first_page [] = None"
| "first_page (Page n # ts) = Some n"
| "first_page (t # ts) = first_page ts"

text \<open>The last page number of a row, if it has one.\<close>

definition last_page :: "token list \<Rightarrow> int option" where
  "last_page ts = first_page (rev ts)"

section \<open>The window of pages\<close>

lemma range_int_Nil: "to < from \<Longrightarrow> range_int from to = []"
  by (simp add: range_int_def)

lemma range_int_length: "length (range_int from to) = nat (to - from + 1)"
  by (simp add: range_int_def)

lemma range_int_append:
  "from \<le> mid + 1 \<Longrightarrow> mid \<le> to \<Longrightarrow> range_int from mid @ range_int (mid + 1) to = range_int from to"
  unfolding range_int_def
  by (cases "from \<le> mid"; cases "mid < to")
     (use upto_split2 [of "from" mid to] in \<open>auto simp: order.order_iff_strict\<close>)

lemma range_int_glue:
  assumes "mid' = mid + 1" "from \<le> mid'" "mid \<le> to"
  shows "map f (range_int from mid) @ map f (range_int mid' to) @ rest
           = map f (range_int from to) @ rest"
proof -
  have "range_int from mid @ range_int (mid + 1) to = range_int from to"
    using assms by (intro range_int_append) simp_all
  then have "map f (range_int from mid @ range_int mid' to) = map f (range_int from to)"
    using assms by simp
  then show ?thesis by simp
qed

lemma range_int_Cons: "from \<le> to \<Longrightarrow> range_int from to = from # range_int (from + 1) to"
  by (simp add: range_int_def upto_rec1)

lemma range_int_snoc: "from \<le> to \<Longrightarrow> range_int from to = range_int from (to - 1) @ [to]"
  by (simp add: range_int_def upto_rec2)

lemma range_int_set: "set (range_int from to) = {from..to}"
  by (simp add: range_int_def)

lemma range_int_nth: "from + int i \<le> to \<Longrightarrow> range_int from to ! i = from + int i"
  by (simp add: range_int_def)

text \<open>When every page fits, the row is the pages from 1 on.\<close>

lemma pages_small: "tot \<le> nbr * 2 + 5 \<Longrightarrow> pages cur tot nbr = map Page (range_int 1 tot)"
  by (simp add: pages_def)

text \<open>
  Above that size the row has one of three shapes: only the left side spills, only the
  right side spills, or both do.
\<close>

lemma pages_left_spill:
  assumes "0 \<le> nbr" "nbr * 2 + 5 < tot" "cur \<le> tot" "tot - 1 \<le> cur + nbr"
  shows "pages cur tot nbr =
           [Page 1, LEFT_PAGE] @ map Page (range_int (tot - nbr * 2 - 2) (tot - 1)) @ [Page tot]"
proof -
  have start: "max 2 (cur - nbr) = cur - nbr" and stop: "min (tot - 1) (cur + nbr) = tot - 1"
    using assms by simp_all
  have len: "int (length (range_int (cur - nbr) (tot - 1))) = tot - cur + nbr"
    using assms by (simp add: range_int_length)
  show ?thesis
    using assms
    by (simp add: pages_def Let_def start stop len range_int_glue) (simp add: algebra_simps)
qed

lemma pages_right_spill:
  assumes "0 \<le> nbr" "nbr * 2 + 5 < tot" "1 \<le> cur" "cur - nbr \<le> 2"
  shows "pages cur tot nbr =
           [Page 1] @ map Page (range_int 2 (nbr * 2 + 3)) @ [RIGHT_PAGE, Page tot]"
proof -
  have start: "max 2 (cur - nbr) = 2" and stop: "min (tot - 1) (cur + nbr) = cur + nbr"
    using assms by simp_all
  have len: "int (length (range_int 2 (cur + nbr))) = cur + nbr - 1"
    using assms by (simp add: range_int_length)
  show ?thesis
    using assms
    by (simp add: pages_def Let_def start stop len range_int_glue) (simp add: algebra_simps)
qed

lemma pages_both_spill:
  assumes "nbr * 2 + 5 < tot" "2 < cur - nbr" "cur + nbr < tot - 1"
  shows "pages cur tot nbr =
           [Page 1, LEFT_PAGE] @ map Page (range_int (cur - nbr) (cur + nbr)) @ [RIGHT_PAGE, Page tot]"
proof -
  have start: "max 2 (cur - nbr) = cur - nbr" and stop: "min (tot - 1) (cur + nbr) = cur + nbr"
    using assms by simp_all
  show ?thesis
    using assms by (simp add: pages_def Let_def start stop)
qed

text \<open>The three shapes cover every window.\<close>

lemma pages_shapes:
  assumes "0 \<le> nbr" "nbr * 2 + 5 < tot" "1 \<le> cur" "cur \<le> tot"
  obtains
    (left) "2 < cur - nbr" "tot - 1 \<le> cur + nbr"
      "pages cur tot nbr =
         [Page 1, LEFT_PAGE] @ map Page (range_int (tot - nbr * 2 - 2) (tot - 1)) @ [Page tot]"
  | (right) "cur - nbr \<le> 2" "cur + nbr < tot - 1"
      "pages cur tot nbr =
         [Page 1] @ map Page (range_int 2 (nbr * 2 + 3)) @ [RIGHT_PAGE, Page tot]"
  | (both) "2 < cur - nbr" "cur + nbr < tot - 1"
      "pages cur tot nbr =
         [Page 1, LEFT_PAGE] @ map Page (range_int (cur - nbr) (cur + nbr)) @ [RIGHT_PAGE, Page tot]"
proof -
  consider "tot - 1 \<le> cur + nbr" | "cur + nbr < tot - 1" "cur - nbr \<le> 2"
    | "cur + nbr < tot - 1" "2 < cur - nbr"
    by linarith
  then show thesis
  proof cases
    case 1
    with assms have "2 < cur - nbr" by linarith
    with 1 assms show thesis by (intro left pages_left_spill)
  next
    case 2
    with assms show thesis by (intro right pages_right_spill)
  next
    case 3
    with assms show thesis by (intro both pages_both_spill)
  qed
qed

subsection \<open>Rows built from page numbers\<close>

lemma first_page_map: "first_page (map Page ns @ ts) = (case ns of [] \<Rightarrow> first_page ts | n # _ \<Rightarrow> Some n)"
  by (cases ns) simp_all

lemma first_page_range: "from \<le> to \<Longrightarrow> first_page (map Page (range_int from to) @ ts) = Some from"
  by (simp add: range_int_Cons)

lemma last_page_range: "from \<le> to \<Longrightarrow> last_page (ts @ map Page (range_int from to)) = Some to"
  by (simp add: last_page_def range_int_snoc)

lemma adjacent_ellipses_Page: "adjacent_ellipses (Page n # ts) = adjacent_ellipses ts"
  by (cases ts) simp_all

lemma adjacent_ellipses_before_Page: "adjacent_ellipses (t # Page n # ts) = adjacent_ellipses ts"
  by (simp add: adjacent_ellipses_Page)

lemma adjacent_ellipses_map: "adjacent_ellipses (map Page ns @ ts) = adjacent_ellipses ts"
  by (induction ns) (simp_all add: adjacent_ellipses_Page)

lemma adjacent_ellipses_range:
  "from \<le> to \<Longrightarrow> adjacent_ellipses (t # map Page (range_int from to) @ ts) = adjacent_ellipses ts"
  by (simp add: range_int_Cons adjacent_ellipses_Page adjacent_ellipses_map)

lemma no_ellipsis_map: "LEFT_PAGE \<notin> set (map Page ns)" "RIGHT_PAGE \<notin> set (map Page ns)"
  by auto

lemma split_at_marker:
  assumes "ts = pre @ m # post" "ts = pre' @ m # post'" "m \<notin> set pre" "m \<notin> set post"
  shows "pre' = pre \<and> post' = post"
  using assms append_Cons_eq_iff [of m pre post pre' post'] by auto

section \<open>Properties of the window\<close>

text \<open>
  Claim C1. When there is at least one page, the current page is one of them and the
  number of neighbours is 0, 1 or 2, the row is not empty, its first element is page 1 and
  its last element is the last page.
\<close>

theorem pages_first_last:
  assumes "1 \<le> tot" "1 \<le> cur" "cur \<le> tot" "0 \<le> nbr" "nbr \<le> 2"
  shows "pages cur tot nbr \<noteq> [] \<and> hd (pages cur tot nbr) = Page 1
           \<and> last (pages cur tot nbr) = Page tot"
proof (cases "tot \<le> nbr * 2 + 5")
  case True
  have "hd (range_int 1 tot) = 1"
    using assms by (simp add: range_int_Cons)
  moreover have "last (range_int 1 tot) = tot"
    using assms by (simp add: range_int_snoc)
  moreover have "range_int 1 tot \<noteq> []"
    using assms by (simp add: range_int_def)
  ultimately show ?thesis
    by (simp add: pages_small [OF True] hd_map last_map)
next
  case False
  then show ?thesis
    by (simp add: pages_def Let_def)
qed

theorem pages_first_last_witness:
  "(1::int) \<le> 10 \<and> (1::int) \<le> 6 \<and> (6::int) \<le> 10 \<and> (0::int) \<le> 2 \<and> (2::int) \<le> 2
     \<and> pages 6 10 2 \<noteq> [] \<and> hd (pages 6 10 2) = Page 1 \<and> last (pages 6 10 2) = Page 10"
  using pages_first_last [of 10 6 2] by simp

text \<open>
  Claim C2. With 0, 1 or 2 neighbours and at most \<open>nbr * 2 + 5\<close> pages (and not fewer
  than none), the row has one element for each page, the element at position \<open>i\<close>
  (counted from 0) is page \<open>i + 1\<close>, no element is an ellipsis, and the row is empty when
  there is no page. The current page plays no part.
\<close>

theorem pages_all_shown:
  assumes "0 \<le> nbr" "nbr \<le> 2" "0 \<le> tot" "tot \<le> nbr * 2 + 5"
  shows "length (pages cur tot nbr) = nat tot
           \<and> (\<forall>i < nat tot. pages cur tot nbr ! i = Page (int i + 1))
           \<and> (\<forall>t \<in> set (pages cur tot nbr). \<not> is_ellipsis t)
           \<and> (tot = 0 \<longrightarrow> pages cur tot nbr = [])"
  using assms
  by (auto simp: pages_small range_int_length range_int_nth range_int_Nil)

theorem pages_all_shown_witness:
  "(0::int) \<le> 1 \<and> (1::int) \<le> 2 \<and> (0::int) \<le> 7 \<and> (7::int) \<le> 1 * 2 + 5
     \<and> length (pages 3 7 1) = 7 \<and> pages 3 7 1 ! 4 = Page 5 \<and> \<not> is_ellipsis (pages 3 7 1 ! 4)
     \<and> pages 3 0 1 = []"
proof -
  have small: "length (pages 3 7 1) = nat 7"
    and nth: "\<forall>i < nat 7. pages 3 7 1 ! i = Page (int i + 1)"
    using pages_all_shown [of 1 7 3] by simp_all
  from nth have "pages 3 7 1 ! 4 = Page (int 4 + 1)"
    by (simp del: nth_Cons_numeral)
  moreover have "pages 3 0 1 = []"
    using pages_all_shown [of 1 0 3] by simp
  ultimately show ?thesis
    using small by simp
qed

text \<open>
  Claim C3. With 0, 1 or 2 neighbours, more than \<open>nbr * 2 + 5\<close> pages and the current
  page among them, the row has exactly \<open>nbr * 2 + 5\<close> elements, page numbers and
  ellipses together, whichever side spills.
\<close>

theorem pages_window_length:
  assumes "0 \<le> nbr" "nbr \<le> 2" "nbr * 2 + 5 < tot" "1 \<le> cur" "cur \<le> tot"
  shows "int (length (pages cur tot nbr)) = nbr * 2 + 5"
  using assms(1,3,4,5)
proof (cases rule: pages_shapes)
  case left
  then show ?thesis using assms by (simp add: range_int_length)
next
  case right
  then show ?thesis using assms by (simp add: range_int_length)
next
  case both
  then show ?thesis using assms by (simp add: range_int_length)
qed

theorem pages_window_length_witness:
  "(0::int) \<le> 2 \<and> (2::int) \<le> 2 \<and> (2::int) * 2 + 5 < 10 \<and> (1::int) \<le> 6 \<and> (6::int) \<le> 10
     \<and> int (length (pages 6 10 2)) = 2 * 2 + 5
     \<and> int (length (pages 1 10 2)) = 2 * 2 + 5
     \<and> int (length (pages 10 10 2)) = 2 * 2 + 5"
  using pages_window_length [of 2 10 6] pages_window_length [of 2 10 1]
    pages_window_length [of 2 10 10]
  by simp

text \<open>
  Claim C4. When there is at least one page, the current page is one of them and the
  number of neighbours is 0, 1 or 2, the current page is an element of the row.
\<close>

theorem pages_has_current:
  assumes "1 \<le> tot" "1 \<le> cur" "cur \<le> tot" "0 \<le> nbr" "nbr \<le> 2"
  shows "Page cur \<in> set (pages cur tot nbr)"
proof (cases "tot \<le> nbr * 2 + 5")
  case True
  then show ?thesis
    using assms by (simp add: pages_small range_int_set)
next
  case False
  then have big: "nbr * 2 + 5 < tot" by simp
  from assms(4) big assms(2,3) show ?thesis
  proof (cases rule: pages_shapes)
    case left
    then show ?thesis using assms by (auto simp: range_int_set)
  next
    case right
    then show ?thesis using assms by (auto simp: range_int_set)
  next
    case both
    then show ?thesis using assms by (auto simp: range_int_set)
  qed
qed

theorem pages_has_current_witness:
  "(1::int) \<le> 10 \<and> (1::int) \<le> 6 \<and> (6::int) \<le> 10 \<and> (0::int) \<le> 2 \<and> (2::int) \<le> 2
     \<and> Page 6 \<in> set (pages 6 10 2)"
  using pages_has_current [of 10 6 2] by simp

text \<open>
  Claim C5. When the current page is one of the pages and the number of neighbours is 0, 1
  or 2, no two ellipses of the row stand side by side; wherever the left ellipsis stands,
  a page number follows it and the first one that does is greater than 2; wherever the
  right ellipsis stands, a page number precedes it and the last one that does is less than
  the last page minus 1.
\<close>

theorem pages_ellipses_sound:
  assumes "0 \<le> tot" "1 \<le> cur" "cur \<le> tot" "0 \<le> nbr" "nbr \<le> 2"
  shows "\<not> adjacent_ellipses (pages cur tot nbr)
           \<and> (\<forall>pre post. pages cur tot nbr = pre @ LEFT_PAGE # post
                 \<longrightarrow> (\<exists>n. first_page post = Some n \<and> 2 < n))
           \<and> (\<forall>pre post. pages cur tot nbr = pre @ RIGHT_PAGE # post
                 \<longrightarrow> (\<exists>n. last_page pre = Some n \<and> n < tot - 1))"
proof (cases "tot \<le> nbr * 2 + 5")
  case True
  have "pages cur tot nbr = map Page (range_int 1 tot) @ []"
    by (simp add: pages_small [OF True])
  then have adj: "\<not> adjacent_ellipses (pages cur tot nbr)"
    by (simp only: adjacent_ellipses_map) simp
  have none: "m \<noteq> LEFT_PAGE \<and> m \<noteq> RIGHT_PAGE"
    if "pages cur tot nbr = pre @ m # post" for pre m post
  proof -
    from that have "m \<in> set (pages cur tot nbr)" by simp
    then show ?thesis by (auto simp: pages_small [OF True])
  qed
  from adj none show ?thesis by blast
next
  case False
  then have big: "nbr * 2 + 5 < tot" by simp
  from assms(4) big assms(2,3) show ?thesis
  proof (cases rule: pages_shapes)
    case left
    let ?post = "map Page (range_int (tot - nbr * 2 - 2) (tot - 1)) @ [Page tot]"
    have shape: "pages cur tot nbr = [Page 1] @ LEFT_PAGE # ?post"
      using left(3) by simp
    have le: "tot - nbr * 2 - 2 \<le> tot - 1"
      using assms by simp
    have adj: "\<not> adjacent_ellipses (pages cur tot nbr)"
      by (simp add: left(3) adjacent_ellipses_Page adjacent_ellipses_range [OF le])
    have l: "\<exists>n. first_page post = Some n \<and> 2 < n"
      if "pages cur tot nbr = pre @ LEFT_PAGE # post" for pre post
    proof -
      have "pre = [Page 1] \<and> post = ?post"
        using split_at_marker [OF shape that] by auto
      then show ?thesis
        using big by (simp add: first_page_range [OF le])
    qed
    have r: "RIGHT_PAGE \<notin> set (pages cur tot nbr)"
      by (auto simp: left(3))
    from adj l r show ?thesis by auto
  next
    case right
    let ?pre = "[Page 1] @ map Page (range_int 2 (nbr * 2 + 3))"
    have shape: "pages cur tot nbr = ?pre @ RIGHT_PAGE # [Page tot]"
      using right(3) by simp
    have le: "2 \<le> nbr * 2 + 3"
      using assms by simp
    have adj: "\<not> adjacent_ellipses (pages cur tot nbr)"
      by (simp add: right(3) adjacent_ellipses_range [OF le])
    have r: "\<exists>n. last_page pre = Some n \<and> n < tot - 1"
      if "pages cur tot nbr = pre @ RIGHT_PAGE # post" for pre post
    proof -
      have "pre = ?pre"
        using split_at_marker [OF shape that] by auto
      moreover have "last_page ?pre = Some (nbr * 2 + 3)"
        by (rule last_page_range [OF le])
      ultimately show ?thesis
        using big by simp
    qed
    have l: "LEFT_PAGE \<notin> set (pages cur tot nbr)"
      by (auto simp: right(3))
    from adj l r show ?thesis by auto
  next
    case both
    let ?mid = "map Page (range_int (cur - nbr) (cur + nbr))"
    have shapeL: "pages cur tot nbr = [Page 1] @ LEFT_PAGE # (?mid @ [RIGHT_PAGE, Page tot])"
      and shapeR: "pages cur tot nbr = ([Page 1, LEFT_PAGE] @ ?mid) @ RIGHT_PAGE # [Page tot]"
      using both(3) by simp_all
    have le: "cur - nbr \<le> cur + nbr"
      using assms by simp
    have adj: "\<not> adjacent_ellipses (pages cur tot nbr)"
      by (simp add: both(3) adjacent_ellipses_Page adjacent_ellipses_range [OF le])
    have l: "\<exists>n. first_page post = Some n \<and> 2 < n"
      if "pages cur tot nbr = pre @ LEFT_PAGE # post" for pre post
    proof -
      have "pre = [Page 1] \<and> post = ?mid @ [RIGHT_PAGE, Page tot]"
        using split_at_marker [OF shapeL that] by auto
      then show ?thesis
        using both(1) by (simp add: first_page_range [OF le])
    qed
    have r: "\<exists>n. last_page pre = Some n \<and> n < tot - 1"
      if "pages cur tot nbr = pre @ RIGHT_PAGE # post" for pre post
    proof -
      have "pre = [Page 1, LEFT_PAGE] @ ?mid"
        using split_at_marker [OF shapeR that] by auto
      moreover have "last_page ([Page 1, LEFT_PAGE] @ ?mid) = Some (cur + nbr)"
        by (rule last_page_range [OF le])
      ultimately show ?thesis
        using both(2) by simp
    qed
    from adj l r show ?thesis by auto
  qed
qed

theorem pages_ellipses_sound_witness:
  "(0::int) \<le> 10 \<and> (1::int) \<le> 6 \<and> (6::int) \<le> 10 \<and> (0::int) \<le> 2 \<and> (2::int) \<le> 2
     \<and> pages 6 10 2 = [Page 1] @ LEFT_PAGE # [Page 4, Page 5, Page 6, Page 7, Page 8, RIGHT_PAGE, Page 10]
     \<and> pages 6 10 2 = [Page 1, LEFT_PAGE, Page 4, Page 5, Page 6, Page 7, Page 8] @ RIGHT_PAGE # [Page 10]
     \<and> \<not> adjacent_ellipses (pages 6 10 2)
     \<and> (\<exists>n. first_page [Page 4, Page 5, Page 6, Page 7, Page 8, RIGHT_PAGE, Page 10] = Some n \<and> 2 < n)
     \<and> (\<exists>n. last_page [Page 1, LEFT_PAGE, Page 4, Page 5, Page 6, Page 7, Page 8] = Some n \<and> n < 10 - 1)"
proof -
  have row: "pages 6 10 2 = [Page 1, LEFT_PAGE, Page 4, Page 5, Page 6, Page 7, Page 8, RIGHT_PAGE, Page 10]"
    by (simp add: pages_def range_int_def Let_def)
  have left: "pages 6 10 2 = [Page 1] @ LEFT_PAGE # [Page 4, Page 5, Page 6, Page 7, Page 8, RIGHT_PAGE, Page 10]"
    and right: "pages 6 10 2 = [Page 1, LEFT_PAGE, Page 4, Page 5, Page 6, Page 7, Page 8] @ RIGHT_PAGE # [Page 10]"
    by (simp_all add: row)
  have hyps: "(0::int) \<le> 10" "(1::int) \<le> 6" "(6::int) \<le> 10" "(0::int) \<le> 2" "(2::int) \<le> 2"
    by simp_all
  note sound = pages_ellipses_sound [OF hyps]
  from sound have "\<not> adjacent_ellipses (pages 6 10 2)"
    by (rule conjunct1)
  moreover from sound left
  have "\<exists>n. first_page [Page 4, Page 5, Page 6, Page 7, Page 8, RIGHT_PAGE, Page 10] = Some n \<and> 2 < n"
    by blast
  moreover from sound right
  have "\<exists>n. last_page [Page 1, LEFT_PAGE, Page 4, Page 5, Page 6, Page 7, Page 8] = Some n \<and> n < 10 - 1"
    by blast
  ultimately show ?thesis
    using left right by simp
qed

section \<open>The controller\<close>

text \<open>The number of pages is the ceiling of the quotient, as \<^verbatim>\<open>Math.ceil\<close> computes it.\<close>

lemma totalPages_ceiling:
  "pageLimit p \<noteq> 0 \<Longrightarrow> totalPages p = \<lceil>real_of_int (totalRecords p) / real_of_int (pageLimit p)\<rceil>"
proof -
  have "\<lfloor>real_of_int (- totalRecords p) / real_of_int (pageLimit p)\<rfloor>
          = (- totalRecords p) div pageLimit p"
    by (rule floor_divide_of_int_eq)
  then show ?thesis
    by (simp add: totalPages_def ceiling_def)
qed

text \<open>The number of neighbours the window is computed with is always 0, 1 or 2.\<close>

lemma pageNeighbors_range: "0 \<le> pageNeighbors p \<and> pageNeighbors p \<le> 2"
  by (simp add: pageNeighbors_def)

text \<open>An ellipsis is rendered only on a side that spills.\<close>

lemma pages_LEFT_spill:
  assumes "LEFT_PAGE \<in> set (pages cur tot nbr)" "0 \<le> nbr" "1 \<le> cur" "cur \<le> tot"
  shows "2 < cur - nbr"
proof (cases "tot \<le> nbr * 2 + 5")
  case True
  with assms(1) show ?thesis by (auto simp: pages_small)
next
  case False
  then have big: "nbr * 2 + 5 < tot" by simp
  from assms(2) big assms(3,4) show ?thesis
  proof (cases rule: pages_shapes)
    case right
    with assms(1) show ?thesis by auto
  qed
qed

lemma pages_RIGHT_spill:
  assumes "RIGHT_PAGE \<in> set (pages cur tot nbr)" "0 \<le> nbr" "1 \<le> cur" "cur \<le> tot"
  shows "cur + nbr < tot - 1"
proof (cases "tot \<le> nbr * 2 + 5")
  case True
  with assms(1) show ?thesis by (auto simp: pages_small)
next
  case False
  then have big: "nbr * 2 + 5 < tot" by simp
  from assms(2) big assms(3,4) show ?thesis
  proof (cases rule: pages_shapes)
    case left
    with assms(1) show ?thesis by auto
  qed
qed

text \<open>
  Claim C6. Whatever the target, \<^verbatim>\<open>handleGoToPage\<close> stores the target clamped from below
  by 0 and from above by the number of pages; in particular, moving left from page 1 stores
  page 0 (when the number of pages is not negative).
\<close>

theorem handleGoToPage_clamps:
  assumes "pageLimit p \<noteq> 0"
  shows "currentPage (fst (handleGoToPage p st target w)) = max 0 (min target (totalPages p))
           \<and> (currentPage st = 1 \<and> 0 \<le> totalPages p
                \<longrightarrow> currentPage (fst (handleMoveLeft p st w)) = 0)"
  by (simp add: handleGoToPage_def handleMoveLeft_def Let_def)

theorem handleGoToPage_clamps_witness:
  "pageLimit example_props \<noteq> 0
     \<and> currentPage (fst (handleGoToPage example_props \<lparr>currentPage = 1\<rparr> 0 [])) = 0
     \<and> currentPage (fst (handleGoToPage example_props \<lparr>currentPage = 1\<rparr> 25 [])) = 10
     \<and> currentPage (fst (handleMoveLeft example_props \<lparr>currentPage = 1\<rparr> [])) = 0"
  using handleGoToPage_clamps [of example_props "\<lparr>currentPage = 1\<rparr>" 0 "[]"]
    handleGoToPage_clamps [of example_props "\<lparr>currentPage = 1\<rparr>" 25 "[]"]
  by (simp add: example_props_def totalPages_def)

text \<open>
  Claim C7. When a callback is registered, \<^verbatim>\<open>handleGoToPage\<close> calls it with the object
  \<^verbatim>\<open>{ currentPage, totalPages, pageLimit, totalRecords }\<close> whose \<^verbatim>\<open>currentPage\<close> is the
  page of the state before the update, while the state after it holds the clamped target.
\<close>

theorem handleGoToPage_payload:
  assumes "onPageChanged p = Some callback" "pageLimit p \<noteq> 0"
  shows "snd (handleGoToPage p st target w) =
           callback \<lparr>info_currentPage = currentPage st, info_totalPages = totalPages p,
                     info_pageLimit = pageLimit p, info_totalRecords = totalRecords p\<rparr> w
           \<and> currentPage (fst (handleGoToPage p st target w)) = max 0 (min target (totalPages p))"
  using assms by (simp add: handleGoToPage_def payload_def Let_def)

theorem handleGoToPage_payload_witness:
  "onPageChanged example_props = Some (#) \<and> pageLimit example_props \<noteq> 0
     \<and> snd (handleGoToPage example_props \<lparr>currentPage = 1\<rparr> 3 []) =
         [\<lparr>info_currentPage = 1, info_totalPages = 10, info_pageLimit = 10, info_totalRecords = 100\<rparr>]
     \<and> currentPage (fst (handleGoToPage example_props \<lparr>currentPage = 1\<rparr> 3 [])) = 3"
  using handleGoToPage_payload [of example_props "(#)" "\<lparr>currentPage = 1\<rparr>" 3 "[]"]
  by (simp add: example_props_def totalPages_def)

text \<open>
  Claim C8, as amended. For a page limit other than zero, a click on the button of an
  ellipsis is not without effect. The left one calls \<^verbatim>\<open>handleMoveLeft\<close>, that is
  \<^verbatim>\<open>handleGoToPage(currentPage - 1)\<close>, the right one \<^verbatim>\<open>handleMoveRight\<close>, that is
  \<^verbatim>\<open>handleGoToPage(currentPage + 1)\<close>, in every state: the click stores the clamped
  neighbouring page, and a registered callback is called once, with the object
  \<^verbatim>\<open>{ currentPage, totalPages, pageLimit, totalRecords }\<close> of the current render. Whenever
  the ellipsis is in the row rendered for a current page among the pages, the click moves
  the current page by exactly one.
\<close>

theorem ellipsis_click_moves:
  assumes "pageLimit p \<noteq> 0"
  shows "handleClick p st LEFT_PAGE w = handleGoToPage p st (currentPage st - 1) w
       \<and> handleClick p st RIGHT_PAGE w = handleGoToPage p st (currentPage st + 1) w
       \<and> fst (handleClick p st LEFT_PAGE w)
           = st\<lparr>currentPage := max 0 (min (currentPage st - 1) (totalPages p))\<rparr>
       \<and> fst (handleClick p st RIGHT_PAGE w)
           = st\<lparr>currentPage := max 0 (min (currentPage st + 1) (totalPages p))\<rparr>
       \<and> (\<forall>callback. onPageChanged p = Some callback \<longrightarrow>
             snd (handleClick p st LEFT_PAGE w)
               = callback \<lparr>info_currentPage = currentPage st, info_totalPages = totalPages p,
                            info_pageLimit = pageLimit p, info_totalRecords = totalRecords p\<rparr> w
           \<and> snd (handleClick p st RIGHT_PAGE w)
               = callback \<lparr>info_currentPage = currentPage st, info_totalPages = totalPages p,
                            info_pageLimit = pageLimit p, info_totalRecords = totalRecords p\<rparr> w)
       \<and> (1 \<le> currentPage st \<and> currentPage st \<le> totalPages p
            \<and> LEFT_PAGE \<in> set (rendered p st)
            \<longrightarrow> currentPage (fst (handleClick p st LEFT_PAGE w)) = currentPage st - 1)
       \<and> (1 \<le> currentPage st \<and> currentPage st \<le> totalPages p
            \<and> RIGHT_PAGE \<in> set (rendered p st)
            \<longrightarrow> currentPage (fst (handleClick p st RIGHT_PAGE w)) = currentPage st + 1)"
proof -
  have nbr: "0 \<le> pageNeighbors p"
    by (simp add: pageNeighbors_def)
  have eqs: "handleClick p st LEFT_PAGE w = handleGoToPage p st (currentPage st - 1) w"
    "handleClick p st RIGHT_PAGE w = handleGoToPage p st (currentPage st + 1) w"
    by (simp_all add: handleMoveLeft_def handleMoveRight_def)
  have stored: "fst (handleClick p st LEFT_PAGE w)
                  = st\<lparr>currentPage := max 0 (min (currentPage st - 1) (totalPages p))\<rparr>"
    "fst (handleClick p st RIGHT_PAGE w)
                  = st\<lparr>currentPage := max 0 (min (currentPage st + 1) (totalPages p))\<rparr>"
    by (simp_all add: handleMoveLeft_def handleMoveRight_def handleGoToPage_def Let_def)
  have told: "snd (handleClick p st LEFT_PAGE w)
               = callback \<lparr>info_currentPage = currentPage st, info_totalPages = totalPages p,
                            info_pageLimit = pageLimit p, info_totalRecords = totalRecords p\<rparr> w
           \<and> snd (handleClick p st RIGHT_PAGE w)
               = callback \<lparr>info_currentPage = currentPage st, info_totalPages = totalPages p,
                            info_pageLimit = pageLimit p, info_totalRecords = totalRecords p\<rparr> w"
    if "onPageChanged p = Some callback" for callback
    using that
    by (simp add: handleMoveLeft_def handleMoveRight_def handleGoToPage_def payload_def Let_def)
  have l: "currentPage (fst (handleClick p st LEFT_PAGE w)) = currentPage st - 1"
    if "1 \<le> currentPage st" "currentPage st \<le> totalPages p" "LEFT_PAGE \<in> set (rendered p st)"
  proof -
    have "2 < currentPage st - pageNeighbors p"
      using that nbr unfolding rendered_def by (intro pages_LEFT_spill)
    with nbr that show ?thesis
      by (simp add: handleMoveLeft_def handleMoveRight_def handleGoToPage_def Let_def)
  qed
  have r: "currentPage (fst (handleClick p st RIGHT_PAGE w)) = currentPage st + 1"
    if "1 \<le> currentPage st" "currentPage st \<le> totalPages p" "RIGHT_PAGE \<in> set (rendered p st)"
  proof -
    have "currentPage st + pageNeighbors p < totalPages p - 1"
      using that nbr unfolding rendered_def by (intro pages_RIGHT_spill)
    with nbr that show ?thesis
      by (simp add: handleMoveLeft_def handleMoveRight_def handleGoToPage_def Let_def)
  qed
  from eqs stored told l r show ?thesis
    by blast
qed

theorem ellipsis_click_moves_witness:
  "pageLimit example_props \<noteq> 0 \<and> onPageChanged example_props = Some (#)
     \<and> (1::int) \<le> 6 \<and> 6 \<le> totalPages example_props
     \<and> LEFT_PAGE \<in> set (rendered example_props \<lparr>currentPage = 6\<rparr>)
     \<and> RIGHT_PAGE \<in> set (rendered example_props \<lparr>currentPage = 6\<rparr>)
     \<and> handleClick example_props \<lparr>currentPage = 6\<rparr> LEFT_PAGE [] =
         (\<lparr>currentPage = 5\<rparr>,
          [\<lparr>info_currentPage = 6, info_totalPages = 10, info_pageLimit = 10, info_totalRecords = 100\<rparr>])
     \<and> handleClick example_props \<lparr>currentPage = 6\<rparr> RIGHT_PAGE [] =
         (\<lparr>currentPage = 7\<rparr>,
          [\<lparr>info_currentPage = 6, info_totalPages = 10, info_pageLimit = 10, info_totalRecords = 100\<rparr>])"
proof -
  have row: "rendered example_props \<lparr>currentPage = 6\<rparr>
               = [Page 1, LEFT_PAGE, Page 5, Page 6, Page 7, RIGHT_PAGE, Page 10]"
    by (simp add: example_props_def rendered_def pages_def range_int_def totalPages_def
        pageNeighbors_def Let_def)
  have lim: "pageLimit example_props \<noteq> 0" and cb: "onPageChanged example_props = Some (#)"
    by (simp_all add: example_props_def)
  have tot: "totalPages example_props = 10"
    by (simp add: example_props_def totalPages_def)
  have fields: "pageLimit example_props = 10" "totalRecords example_props = 100"
    by (simp_all add: example_props_def)
  note moves = ellipsis_click_moves [OF lim, of "\<lparr>currentPage = 6\<rparr>" "[]"]
  from moves row tot
  have "currentPage (fst (handleClick example_props \<lparr>currentPage = 6\<rparr> LEFT_PAGE [])) = 6 - 1"
    and "currentPage (fst (handleClick example_props \<lparr>currentPage = 6\<rparr> RIGHT_PAGE [])) = 6 + 1"
    by auto
  then have "fst (handleClick example_props \<lparr>currentPage = 6\<rparr> LEFT_PAGE []) = \<lparr>currentPage = 5\<rparr>"
    and "fst (handleClick example_props \<lparr>currentPage = 6\<rparr> RIGHT_PAGE []) = \<lparr>currentPage = 7\<rparr>"
    by simp_all
  moreover from moves cb
  have "snd (handleClick example_props \<lparr>currentPage = 6\<rparr> LEFT_PAGE [])
          = [\<lparr>info_currentPage = 6, info_totalPages = 10, info_pageLimit = 10, info_totalRecords = 100\<rparr>]"
    and "snd (handleClick example_props \<lparr>currentPage = 6\<rparr> RIGHT_PAGE [])
          = [\<lparr>info_currentPage = 6, info_totalPages = 10, info_pageLimit = 10, info_totalRecords = 100\<rparr>]"
    by (auto simp: tot fields)
  ultimately show ?thesis
    using row lim cb tot by (simp add: prod_eq_iff)
qed

text \<open>
  The claim as the specification states it fails: with 100 records, 10 to a page and one
  neighbour, the row rendered at page 6 holds the left ellipsis, and a click on it stores
  page 5 and calls the callback.
\<close>

theorem ellipsis_click_counterexample:
  "LEFT_PAGE \<in> set (rendered example_props \<lparr>currentPage = 6\<rparr>)
     \<and> handleClick example_props \<lparr>currentPage = 6\<rparr> LEFT_PAGE []
         = (\<lparr>currentPage = 5\<rparr>,
            [\<lparr>info_currentPage = 6, info_totalPages = 10, info_pageLimit = 10, info_totalRecords = 100\<rparr>])
     \<and> fst (handleClick example_props \<lparr>currentPage = 6\<rparr> LEFT_PAGE []) \<noteq> \<lparr>currentPage = 6\<rparr>"
  by (simp add: example_props_def rendered_def pages_def range_int_def totalPages_def pageNeighbors_def
      handleMoveLeft_def handleGoToPage_def payload_def Let_def)

text \<open>
  Claim C9. Without a callback, \<^verbatim>\<open>handleGoToPage\<close> stores the clamped target and leaves
  the caller's world as it was: the notification is skipped, and the handler has no other
  outcome.
\<close>

theorem handleGoToPage_no_callback:
  assumes "onPageChanged p = None" "pageLimit p \<noteq> 0"
  shows "handleGoToPage p st target w = (st\<lparr>currentPage := max 0 (min target (totalPages p))\<rparr>, w)"
  using assms by (simp add: handleGoToPage_def Let_def)

theorem handleGoToPage_no_callback_witness:
  "onPageChanged example_silent = None \<and> pageLimit example_silent \<noteq> 0
     \<and> handleGoToPage example_silent \<lparr>currentPage = 1\<rparr> 25 [] = (\<lparr>currentPage = 10\<rparr>, [])"
  using handleGoToPage_no_callback [of example_silent "\<lparr>currentPage = 1\<rparr>" 25 "[]"]
  by (simp add: example_silent_def totalPages_def)

text \<open>
  Claim C10. When a callback is registered, every call of \<^verbatim>\<open>handleGoToPage\<close>, of
  \<^verbatim>\<open>handleMoveLeft\<close>, of \<^verbatim>\<open>handleMoveRight\<close> and every click on a button calls it once,
  with the object of the current render; also when the clamped target is the current
  page, where the state stays as it is and the callback is called all the same.
\<close>

theorem callback_on_every_call:
  assumes "onPageChanged p = Some callback" "pageLimit p \<noteq> 0"
  shows "snd (handleGoToPage p st target w) = callback (payload p st) w
           \<and> snd (handleMoveLeft p st w) = callback (payload p st) w
           \<and> snd (handleMoveRight p st w) = callback (payload p st) w
           \<and> snd (handleClick p st page w) = callback (payload p st) w
           \<and> (max 0 (min target (totalPages p)) = currentPage st
                \<longrightarrow> handleGoToPage p st target w = (st, callback (payload p st) w))"
  using assms
  by (cases page) (simp_all add: handleGoToPage_def handleMoveLeft_def handleMoveRight_def Let_def)

theorem callback_on_every_call_witness:
  "onPageChanged example_props = Some (#) \<and> pageLimit example_props \<noteq> 0
     \<and> max 0 (min 6 (totalPages example_props)) = currentPage \<lparr>currentPage = 6\<rparr>
     \<and> handleClick example_props \<lparr>currentPage = 6\<rparr> (Page 6) [] =
         (\<lparr>currentPage = 6\<rparr>,
          [\<lparr>info_currentPage = 6, info_totalPages = 10, info_pageLimit = 10, info_totalRecords = 100\<rparr>])
     \<and> handleMoveLeft example_props \<lparr>currentPage = 0\<rparr> [] =
         (\<lparr>currentPage = 0\<rparr>,
          [\<lparr>info_currentPage = 0, info_totalPages = 10, info_pageLimit = 10, info_totalRecords = 100\<rparr>])"
proof -
  have hyps: "onPageChanged example_props = Some (#)" "pageLimit example_props \<noteq> 0"
    by (simp_all add: example_props_def)
  have tot: "totalPages example_props = 10"
    by (simp add: example_props_def totalPages_def)
  have pay: "payload example_props \<lparr>currentPage = c\<rparr> =
      \<lparr>info_currentPage = c, info_totalPages = 10, info_pageLimit = 10, info_totalRecords = 100\<rparr>" for c
    by (simp add: payload_def tot) (simp add: example_props_def)
  from callback_on_every_call [OF hyps, of "\<lparr>currentPage = 6\<rparr>" 6 "[]" "Page 6"]
  have "handleGoToPage example_props \<lparr>currentPage = 6\<rparr> 6 [] =
          (\<lparr>currentPage = 6\<rparr>, [payload example_props \<lparr>currentPage = 6\<rparr>])"
    by (simp add: tot)
  moreover
  from callback_on_every_call [OF hyps, of "\<lparr>currentPage = 0\<rparr>" "-1" "[]" "Page 6"]
  have "handleGoToPage example_props \<lparr>currentPage = 0\<rparr> (-1) [] =
          (\<lparr>currentPage = 0\<rparr>, [payload example_props \<lparr>currentPage = 0\<rparr>])"
    by (simp add: tot)
  ultimately show ?thesis
    using hyps by (simp add: pay tot handleMoveLeft_def)
qed

end
